theory Spec2Isabelle
  imports Main
begin

section \<open>JavaScript values\<close>

text \<open>
  The class \<open>UrlControl\<close> of \<open>static/url_control.js\<close> stores whatever its callers
  hand it, so the values are untyped. It never computes with a value: it compares
  values (\<open>includes\<close>, \<open>!==\<close>), tests the truthiness of a query parameter (\<open>||\<close>) and
  converts values to strings (\<open>searchParams.set\<close>). A Number is therefore represented
  by its canonical numeral, the string that the engine's Number-to-string conversion
  gives for it (\<open>+0\<close> and \<open>-0\<close> share \<open>''0''\<close>, and the code cannot tell them
  apart); \<open>NaN\<close>, the one value that is not equal to itself, has a constructor of its
  own. With that, \<open>SameValueZero\<close> (used by \<open>Array.prototype.includes\<close>) is equality of
  the representation.

  An array holds primitive values and is modelled by its contents. The code never
  compares two arrays, so the identity of an array object is not observable in what
  is modelled here; two fields sharing one array object are not modelled.
\<close>

datatype prim =
    Undefined
  | Null
  | Bool bool
  | NaN
  | Num string
  | Str string

datatype jsval =
    Prim prim
  | Arr "prim list"

datatype js_error = TypeError

text \<open>\<open>ToBoolean\<close>: the falsy values are \<open>undefined\<close>, \<open>null\<close>, \<open>false\<close>, \<open>NaN\<close>, zero and
  the empty string; every object (so every array) is truthy.\<close>

fun truthy :: "jsval \<Rightarrow> bool" where
  "truthy (Prim Undefined) = False"
| "truthy (Prim Null) = False"
| "truthy (Prim (Bool b)) = b"
| "truthy (Prim NaN) = False"
| "truthy (Prim (Num n)) = (n \<noteq> ''0'')"
| "truthy (Prim (Str s)) = (s \<noteq> [])"
| "truthy (Arr xs) = True"

text \<open>\<open>a || b\<close> evaluates to \<open>a\<close> when \<open>a\<close> is truthy and to \<open>b\<close> otherwise.\<close>

definition js_or :: "jsval \<Rightarrow> jsval \<Rightarrow> jsval" where
  "js_or a b = (if truthy a then a else b)"

text \<open>Strict equality \<open>===\<close> on primitives.\<close>

definition strict_eq :: "prim \<Rightarrow> prim \<Rightarrow> bool" where
  "strict_eq a b = (a = b \<and> a \<noteq> NaN)"

text \<open>\<open>ToString\<close>. An array is joined with commas, \<open>undefined\<close> and \<open>null\<close> elements
  giving the empty string.\<close>

fun prim_to_string :: "prim \<Rightarrow> string" where
  "prim_to_string Undefined = ''undefined''"
| "prim_to_string Null = ''null''"
| "prim_to_string (Bool b) = (if b then ''true'' else ''false'')"
| "prim_to_string NaN = ''NaN''"
| "prim_to_string (Num n) = n"
| "prim_to_string (Str s) = s"

fun element_to_string :: "prim \<Rightarrow> string" where
  "element_to_string Undefined = []"
| "element_to_string Null = []"
| "element_to_string x = prim_to_string x"

fun join :: "string \<Rightarrow> string list \<Rightarrow> string" where
  "join sep [] = []"
| "join sep [x] = x"
| "join sep (x # y # ys) = x @ sep @ join sep (y # ys)"

fun to_string :: "jsval \<Rightarrow> string" where
  "to_string (Prim x) = prim_to_string x"
| "to_string (Arr xs) = join '','' (map element_to_string xs)"

text \<open>\<open>String.prototype.includes\<close>: does \<open>t\<close> occur in \<open>s\<close> as a contiguous run?\<close>

fun starts_with :: "string \<Rightarrow> string \<Rightarrow> bool" where
  "starts_with s [] = True"
| "starts_with [] (c # t) = False"
| "starts_with (d # s) (c # t) = (d = c \<and> starts_with s t)"

fun string_includes :: "string \<Rightarrow> string \<Rightarrow> bool" where
  "string_includes [] t = (t = [])"
| "string_includes (c # s) t = (starts_with (c # s) t \<or> string_includes s t)"

section \<open>The page: URL, session history, timers\<close>

text \<open>
  A URL is modelled as the browser's \<open>URL\<close> object has it after parsing: the list of
  name-value pairs of its query (what \<open>searchParams\<close> works on, in order, names and
  values decoded) and the rest (scheme, host, path and fragment), which the code
  never touches. Parsing \<open>window.location.href\<close> and serialising with \<open>toString\<close> are
  the browser's; serialising and parsing again gives the same pairs.
\<close>

record url =
  rest :: string
  searchParams :: "(string \<times> string) list"

text \<open>\<open>URLSearchParams.get\<close>: the value of the first pair with that name, or \<open>null\<close>.\<close>

definition searchParams_get :: "string \<Rightarrow> (string \<times> string) list \<Rightarrow> jsval" where
  "searchParams_get name ps =
     (case map_of ps name of None \<Rightarrow> Prim Null | Some v \<Rightarrow> Prim (Str v))"

text \<open>\<open>URLSearchParams.set\<close>: when a pair with that name exists, the first one takes the
  new value and the others are removed; otherwise a new pair is appended.\<close>

fun set_first :: "string \<Rightarrow> string \<Rightarrow> (string \<times> string) list \<Rightarrow> (string \<times> string) list" where
  "set_first name v [] = []"
| "set_first name v (p # ps) =
     (if fst p = name then (name, v) # filter (\<lambda>q. fst q \<noteq> name) ps
      else p # set_first name v ps)"

definition searchParams_set :: "string \<Rightarrow> string \<Rightarrow> (string \<times> string) list \<Rightarrow> (string \<times> string) list" where
  "searchParams_set name v ps =
     (if name \<in> fst ` set ps then set_first name v ps else ps @ [(name, v)])"

text \<open>
  The window: the current location, the session history with the index of the current
  entry, a clock, and the timers that are scheduled. The callback of every timer of
  this program is the same closure, \<open>window.history.replaceState({}, 'WMS UI',
  current_url.toString())\<close>, over a \<open>URL\<close> object that nothing else refers to; a timer
  is therefore its id, the time it is due and that captured URL. \<open>replaced\<close> is a
  trace of the \<open>replaceState\<close> calls made so far, in order.

  \<open>clearTimeout\<close> converts its argument to a number (a \<open>long\<close>) before it looks for the
  timer. For an id that \<open>setTimeout\<close> returned and for \<open>null\<close> the result is plain; what
  the conversion makes of any other value (a string is parsed as a numeric literal) is
  the browser's, and the window carries it as \<open>handle_of\<close>: the id that the value names,
  if it names one.
\<close>

record entry =
  title :: string
  href :: url

record timer =
  timer_id :: nat
  due :: nat
  captured :: url

record window =
  location :: url
  entries :: "entry list"
  current :: nat
  now :: nat
  timers :: "timer list"
  next_id :: nat
  replaced :: "entry list"
  handle_of :: "jsval \<Rightarrow> nat option"

text \<open>\<open>history.replaceState(state, title, url)\<close> overwrites the current entry of the
  session history and the location; it adds no entry.\<close>

definition replaceState :: "string \<Rightarrow> url \<Rightarrow> window \<Rightarrow> window" where
  "replaceState t u w =
     w\<lparr>location := u,
       entries := (entries w)[current w := \<lparr>title = t, href = u\<rparr>],
       replaced := replaced w @ [\<lparr>title = t, href = u\<rparr>]\<rparr>"

text \<open>\<open>setTimeout(callback, delay)\<close> schedules the callback and returns a fresh id.\<close>

definition setTimeout :: "url \<Rightarrow> nat \<Rightarrow> window \<Rightarrow> nat \<times> window" where
  "setTimeout u delay w =
     (next_id w,
      w\<lparr>timers := timers w @ [\<lparr>timer_id = next_id w, due = now w + delay, captured = u\<rparr>],
        next_id := Suc (next_id w)\<rparr>)"

text \<open>\<open>clearTimeout(handle)\<close> cancels the timer with that id, if it is still scheduled;
  \<open>null\<close> (here \<open>None\<close>) names no timer.\<close>

definition clearTimeout :: "nat option \<Rightarrow> window \<Rightarrow> window" where
  "clearTimeout h w =
     (case h of
        None \<Rightarrow> w
      | Some i \<Rightarrow> w\<lparr>timers := filter (\<lambda>t. timer_id t \<noteq> i) (timers w)\<rparr>)"

text \<open>The callback of a timer.\<close>

definition fire :: "timer \<Rightarrow> window \<Rightarrow> window" where
  "fire t w = replaceState ''WMS UI'' (captured t) w"

text \<open>Time passing: the clock advances by \<open>d\<close>, and the timers that are due by then run,
  earliest first (in the order of their creation when due together), each once.
  JavaScript runs to completion, so this happens between two calls, never inside one.\<close>

definition elapse :: "nat \<Rightarrow> window \<Rightarrow> window" where
  "elapse d w =
     (let t = now w + d;
          ready = sort_key due (filter (\<lambda>x. due x \<le> t) (timers w));
          w' = w\<lparr>now := t, timers := filter (\<lambda>x. \<not> due x \<le> t) (timers w)\<rparr>
      in fold fire ready w')"

section \<open>The class UrlControl\<close>

text \<open>
  An instance has the properties that the code assigns with \<open>this[param] = value\<close>, kept
  by name, and \<open>timeout\<close>, the handle of the last timer (\<open>null\<close> at first). A missing
  property reads as \<open>undefined\<close>.

  \<open>timeout\<close> is a property like the others, so a caller can store a value under that
  name. The record keeps the two apart: \<open>timeout this = Some i\<close> says that the property
  holds the id \<open>i\<close> that \<open>setTimeout\<close> returned; \<open>timeout this = None\<close> says that it holds
  what a caller stored last (the entry of \<open>props\<close> at \<open>''timeout''\<close>), or \<open>null\<close> when no
  caller has stored anything.

  The other members of the class are its methods, found on the prototype:
  \<open>this['add_to_list']\<close> reads a function, and storing a value under such a name, or
  under \<open>__proto__\<close>, changes what a later call finds. \<open>members\<close> lists these names; a
  field name is any other name.

  A name that the instance inherits and that no caller has stored (\<open>constructor\<close>,
  \<open>toString\<close> and the other properties of \<open>Object.prototype\<close>) reads as a function.
  Functions are not among the values here. The methods of the class ask the value of a
  property only for \<open>includes\<close>, \<open>filter\<close> and \<open>push\<close>, which a function lacks as
  \<open>undefined\<close> does, so \<open>get_prop\<close> gives \<open>undefined\<close> for these names too; what a caller
  stored under such a name is read back like any field.
\<close>

record UrlControl =
  props :: "string \<rightharpoonup> jsval"
  timeout :: "nat option"

definition members :: "string list" where
  "members = [''timeout'', ''remove_from_list'', ''add_to_list'', ''change_param'',
              ''change_params'', ''_change_history'', ''__proto__'']"

definition field_name :: "string \<Rightarrow> bool" where
  "field_name p = (p \<notin> set members)"

text \<open>The decimal digits of a natural number: what reading a timer id as a Number and
  converting it to a string gives.\<close>

fun decimal :: "nat \<Rightarrow> string" where
  "decimal n =
     (if n < 10 then [char_of (48 + n)] else decimal (n div 10) @ [char_of (48 + n mod 10)])"

declare decimal.simps [simp del]

text \<open>\<open>this[p]\<close>, read and written.\<close>

definition get_prop :: "UrlControl \<Rightarrow> string \<Rightarrow> jsval" where
  "get_prop this p =
     (if p = ''timeout'' then
        (case timeout this of
           Some i \<Rightarrow> Prim (Num (decimal i))
         | None \<Rightarrow> (case props this p of None \<Rightarrow> Prim Null | Some v \<Rightarrow> v))
      else (case props this p of None \<Rightarrow> Prim Undefined | Some v \<Rightarrow> v))"

definition set_prop :: "string \<Rightarrow> jsval \<Rightarrow> UrlControl \<Rightarrow> UrlControl" where
  "set_prop p v this =
     (if p = ''timeout'' then this\<lparr>props := (props this)(p \<mapsto> v), timeout := None\<rparr>
      else this\<lparr>props := (props this)(p \<mapsto> v)\<rparr>)"

text \<open>The constructor. \<open>default_base_layer\<close> is a global of the page that this file does
  not define; it is a parameter here.\<close>

definition "constructor" :: "jsval \<Rightarrow> window \<Rightarrow> jsval \<Rightarrow> jsval \<Rightarrow> jsval \<Rightarrow> UrlControl" where
  "constructor default_base_layer w default_lat default_lon default_zoom =
     (let current_url = location w;
          this = \<lparr>props = Map.empty, timeout = None\<rparr>;
          this = set_prop ''lat''
                   (js_or (searchParams_get ''lat'' (searchParams current_url)) default_lat) this;
          this = set_prop ''lon''
                   (js_or (searchParams_get ''lon'' (searchParams current_url)) default_lon) this;
          this = set_prop ''zoom''
                   (js_or (searchParams_get ''zoom'' (searchParams current_url)) default_zoom) this;
          this = set_prop ''base''
                   (js_or (searchParams_get ''base'' (searchParams current_url)) default_base_layer) this
      in this\<lparr>timeout := None\<rparr>)"

text \<open>\<open>this[param].includes(value)\<close>. Arrays and strings have the method; on \<open>undefined\<close>
  and \<open>null\<close> the property read raises, on the other primitives \<open>includes\<close> is
  \<open>undefined\<close> and the call raises.\<close>

fun js_includes :: "jsval \<Rightarrow> prim \<Rightarrow> js_error + bool" where
  "js_includes (Arr xs) v = Inr (v \<in> set xs)"
| "js_includes (Prim (Str s)) v = Inr (string_includes s (prim_to_string v))"
| "js_includes (Prim x) v = Inl TypeError"

text \<open>\<open>this[param].filter(function(item) { return item !== value })\<close>: only an array
  has \<open>filter\<close>.\<close>

fun filter_out :: "jsval \<Rightarrow> prim \<Rightarrow> js_error + jsval" where
  "filter_out (Arr xs) v = Inr (Arr (filter (\<lambda>item. \<not> strict_eq item v) xs))"
| "filter_out (Prim x) v = Inl TypeError"

text \<open>\<open>this[param].push(value)\<close>: only an array has \<open>push\<close>; the array that the property
  holds grows by one element.\<close>

fun push :: "jsval \<Rightarrow> prim \<Rightarrow> js_error + jsval" where
  "push (Arr xs) v = Inr (Arr (xs @ [v]))"
| "push (Prim x) v = Inl TypeError"

text \<open>The loop of \<open>_change_history\<close>: each of the four fields, converted to a string, is
  set in the query of the URL.\<close>

definition build_url :: "UrlControl \<Rightarrow> url \<Rightarrow> url" where
  "build_url this current_url =
     fold (\<lambda>p u. u\<lparr>searchParams :=
                   searchParams_set p (to_string (get_prop this p)) (searchParams u)\<rparr>)
       [''lat'', ''lon'', ''zoom'', ''base''] current_url"

text \<open>The timer that \<open>clearTimeout(this.timeout)\<close> looks for: the id that the class stored,
  or what the browser makes of the value that a caller stored; \<open>null\<close> names no timer.\<close>

definition handle :: "UrlControl \<Rightarrow> window \<Rightarrow> nat option" where
  "handle this w =
     (case timeout this of
        Some i \<Rightarrow> Some i
      | None \<Rightarrow> (case props this ''timeout'' of None \<Rightarrow> None | Some v \<Rightarrow> handle_of w v))"

text \<open>\<open>_change_history\<close>: the URL is built from the location and the four fields now; the
  pending timer is cleared and a new one is set, whose callback writes that URL.\<close>

definition UrlControl_change_history :: "UrlControl \<Rightarrow> window \<Rightarrow> UrlControl \<times> window" where
  "UrlControl_change_history this w =
     (let current_url = build_url this (location w);
          w = clearTimeout (handle this w) w;
          (h, w) = setTimeout current_url 300 w
      in (this\<lparr>timeout := Some h\<rparr>, w))"

definition remove_from_list ::
  "string \<Rightarrow> prim \<Rightarrow> UrlControl \<Rightarrow> window \<Rightarrow> js_error + UrlControl \<times> window" where
  "remove_from_list param v this w =
     (case js_includes (get_prop this param) v of
        Inl e \<Rightarrow> Inl e
      | Inr True \<Rightarrow>
          (case filter_out (get_prop this param) v of
             Inl e \<Rightarrow> Inl e
           | Inr xs \<Rightarrow> Inr (UrlControl_change_history (set_prop param xs this) w))
      | Inr False \<Rightarrow> Inr (UrlControl_change_history this w))"

definition add_to_list ::
  "string \<Rightarrow> prim \<Rightarrow> UrlControl \<Rightarrow> window \<Rightarrow> js_error + UrlControl \<times> window" where
  "add_to_list param v this w =
     (case js_includes (get_prop this param) v of
        Inl e \<Rightarrow> Inl e
      | Inr False \<Rightarrow>
          (case push (get_prop this param) v of
             Inl e \<Rightarrow> Inl e
           | Inr xs \<Rightarrow> Inr (UrlControl_change_history (set_prop param xs this) w))
      | Inr True \<Rightarrow> Inr (UrlControl_change_history this w))"

text \<open>\<open>change_param(param, value, change_history = true)\<close>: the default applies when the
  third argument is missing or \<open>undefined\<close>; the test is for truthiness.\<close>

definition change_param ::
  "string \<Rightarrow> jsval \<Rightarrow> jsval \<Rightarrow> UrlControl \<Rightarrow> window \<Rightarrow> UrlControl \<times> window" where
  "change_param param v change_history this w =
     (let change_history =
            (if change_history = Prim Undefined then Prim (Bool True) else change_history);
          this = set_prop param v this
      in if truthy change_history then UrlControl_change_history this w else (this, w))"

text \<open>\<open>change_params(params)\<close>: \<open>params\<close> is an object, given by its enumerable
  properties in the order of \<open>for ... in\<close>; \<open>params[name]\<close> reads one of them.\<close>

definition object_get :: "(string \<times> jsval) list \<Rightarrow> string \<Rightarrow> jsval" where
  "object_get obj name = (case map_of obj name of None \<Rightarrow> Prim Undefined | Some v \<Rightarrow> v)"

definition change_params ::
  "(string \<times> jsval) list \<Rightarrow> UrlControl \<Rightarrow> window \<Rightarrow> UrlControl \<times> window" where
  "change_params params this w =
     UrlControl_change_history
       (fold (\<lambda>name this. set_prop name (object_get params name) this) (map fst params) this) w"

section \<open>The colour of a cluster\<close>

text \<open>
  \<open>randomChoice\<close> multiplies the length of the array by \<open>Math.random()\<close>, in binary64
  arithmetic. What \<open>Math.random()\<close> returns and what the product can be are finite and
  not negative; such a Number is \<open>significand * 2 ^ exponent\<close> with a significand of at
  most 53 bits and an exponent of at least \<open>-1074\<close> (the exponent of the least
  subnormal).
\<close>

record float64 =
  significand :: nat
  exponent :: int

definition is_float64 :: "float64 \<Rightarrow> bool" where
  "is_float64 x = (significand x < 2 ^ 53 \<and> - 1074 \<le> exponent x \<and> exponent x \<le> 971)"

definition less_than_one :: "float64 \<Rightarrow> bool" where
  "less_than_one x =
     (significand x = 0 \<or> (exponent x < 0 \<and> significand x < 2 ^ nat (- exponent x)))"

text \<open>\<open>Math.random()\<close> returns a Number that is at least 0 and less than 1; the draw is a
  parameter of the functions below.\<close>

definition random_result :: "float64 \<Rightarrow> bool" where
  "random_result r = (is_float64 r \<and> less_than_one r)"

text \<open>The number of binary digits of a natural number.\<close>

fun bit_length :: "nat \<Rightarrow> nat" where
  "bit_length n = (if n = 0 then 0 else Suc (bit_length (n div 2)))"

declare bit_length.simps [simp del]

text \<open>
  \<open>arr.length * Math.random()\<close>: the length is an integer below \<open>2 ^ 32\<close>, so the exact
  product is \<open>(length * significand) * 2 ^ exponent\<close>; it is rounded to 53 binary digits,
  to the nearest Number, a tie going to the one with an even significand. The product is
  less than the length, so it does not overflow, and its exponent is not below that of
  the draw, so it does not underflow.
\<close>

definition times_length :: "nat \<Rightarrow> float64 \<Rightarrow> float64" where
  "times_length n r =
     (let exact = n * significand r in
      if exact < 2 ^ 53 then \<lparr>significand = exact, exponent = exponent r\<rparr>
      else
        let s = bit_length exact - 53;
            q = exact div 2 ^ s;
            rem = exact mod 2 ^ s;
            half = 2 ^ (s - 1);
            q = (if half < rem \<or> (rem = half \<and> odd q) then q + 1 else q)
        in \<lparr>significand = q, exponent = exponent r + int s\<rparr>)"

text \<open>\<open>Math.floor\<close> of such a Number.\<close>

definition Math_floor :: "float64 \<Rightarrow> nat" where
  "Math_floor x =
     (if 0 \<le> exponent x then significand x * 2 ^ nat (exponent x)
      else significand x div 2 ^ nat (- exponent x))"

text \<open>\<open>arr[i]\<close>: an index past the end reads \<open>undefined\<close>.\<close>

definition element_at :: "prim list \<Rightarrow> nat \<Rightarrow> prim" where
  "element_at arr i = (if i < length arr then arr ! i else Undefined)"

definition map_detections_clusters_colors :: "prim list" where
  "map_detections_clusters_colors =
     [Str ''#46ff00'', Str ''#02750c'', Str ''#e400ff'', Str ''#fa67e6'',
      Str ''#ff0000'', Str ''#881b1b'', Str ''#ffff00'']"

definition randomChoice :: "prim list \<Rightarrow> float64 \<Rightarrow> prim" where
  "randomChoice arr random = element_at arr (Math_floor (times_length (length arr) random))"

definition randomClusterColor :: "float64 \<Rightarrow> prim" where
  "randomClusterColor random = randomChoice map_detections_clusters_colors random"

section \<open>Sequences of calls\<close>

text \<open>
  What happens to a controller during a page session: calls of its four public methods
  by the handlers of the page, and time passing between them. An exception ends the
  sequence.

  The methods above are the bodies as they run when \<open>this._change_history\<close> is the
  method of the class. A call on an instance looks the name up: a property
  \<open>_change_history\<close> that a caller stored on the instance is found first, and a
  prototype replaced through \<open>__proto__\<close> (by \<open>null\<close> or by an array; storing another
  primitive there does nothing) no longer has the method. In both cases
  \<open>this._change_history()\<close> raises a \<open>TypeError\<close>, after the assignments of the call.
\<close>

definition finds_change_history :: "UrlControl \<Rightarrow> bool" where
  "finds_change_history this =
     (props this ''_change_history'' = None
      \<and> (case props this ''__proto__'' of
           None \<Rightarrow> True
         | Some (Prim Null) \<Rightarrow> False
         | Some (Prim x) \<Rightarrow> True
         | Some (Arr xs) \<Rightarrow> False))"

definition calling_change_history ::
  "UrlControl \<times> window \<Rightarrow> js_error + UrlControl \<times> window" where
  "calling_change_history c = (if finds_change_history (fst c) then Inr c else Inl TypeError)"

datatype event =
    Remove_from_list string prim
  | Add_to_list string prim
  | Change_param string jsval jsval
  | Change_params "(string \<times> jsval) list"
  | Elapse nat

fun step :: "event \<Rightarrow> UrlControl \<times> window \<Rightarrow> js_error + UrlControl \<times> window" where
  "step (Remove_from_list param v) (this, w) =
     (case remove_from_list param v this w of
        Inl e \<Rightarrow> Inl e
      | Inr c \<Rightarrow> calling_change_history c)"
| "step (Add_to_list param v) (this, w) =
     (case add_to_list param v this w of
        Inl e \<Rightarrow> Inl e
      | Inr c \<Rightarrow> calling_change_history c)"
| "step (Change_param param v change_history) (this, w) =
     (if change_history = Prim Undefined \<or> truthy change_history
      then calling_change_history (change_param param v change_history this w)
      else Inr (change_param param v change_history this w))"
| "step (Change_params params) (this, w) =
     calling_change_history (change_params params this w)"
| "step (Elapse d) (this, w) = Inr (this, elapse d w)"

fun run :: "event list \<Rightarrow> UrlControl \<times> window \<Rightarrow> js_error + UrlControl \<times> window" where
  "run [] c = Inr c"
| "run (e # es) c = (case step e c of Inl err \<Rightarrow> Inl err | Inr c' \<Rightarrow> run es c')"

text \<open>The calls of an event name fields, not members of the class.\<close>

fun well_named :: "event \<Rightarrow> bool" where
  "well_named (Remove_from_list param v) = field_name param"
| "well_named (Add_to_list param v) = field_name param"
| "well_named (Change_param param v change_history) = field_name param"
| "well_named (Change_params params) = list_all (\<lambda>q. field_name (fst q)) params"
| "well_named (Elapse d) = True"

text \<open>The events that reach \<open>_change_history\<close> when they do not raise: every call but a
  \<open>change_param\<close> whose third argument is falsy.\<close>

fun requests_history :: "event \<Rightarrow> bool" where
  "requests_history (Remove_from_list param v) = True"
| "requests_history (Add_to_list param v) = True"
| "requests_history (Change_param param v change_history) =
     (change_history = Prim Undefined \<or> truthy change_history)"
| "requests_history (Change_params params) = True"
| "requests_history (Elapse d) = False"

text \<open>The timers of the window belong to the controller: none is scheduled, or one is, it
  is the one the handle names, and it is not due yet.\<close>

definition pending_ok :: "UrlControl \<Rightarrow> window \<Rightarrow> bool" where
  "pending_ok this w =
     (case timers w of
        [] \<Rightarrow> True
      | [t] \<Rightarrow> timeout this = Some (timer_id t) \<and> now w < due t
      | _ \<Rightarrow> False)"

text \<open>A value without duplicates: a list whose elements are pairwise different, or a
  scalar.\<close>

fun no_duplicates :: "jsval \<Rightarrow> bool" where
  "no_duplicates (Arr xs) = distinct xs"
| "no_duplicates (Prim x) = True"

definition duplicate_free :: "UrlControl \<Rightarrow> bool" where
  "duplicate_free this = (\<forall>p v. props this p = Some v \<longrightarrow> no_duplicates v)"

text \<open>The lists that an event hands to the controller have no duplicates.\<close>

fun hands_no_duplicates :: "event \<Rightarrow> bool" where
  "hands_no_duplicates (Change_param param v change_history) = no_duplicates v"
| "hands_no_duplicates (Change_params params) = list_all (\<lambda>q. no_duplicates (snd q)) params"
| "hands_no_duplicates e = True"

text \<open>A burst of calls: each call is followed by a pause before the next one.\<close>

fun burst :: "(event \<times> nat) list \<Rightarrow> event list" where
  "burst [] = []"
| "burst ((e, pause) # calls) = e # Elapse pause # burst calls"

section \<open>An example page\<close>

text \<open>The page of the specification's examples: the URL carries \<open>lat=5\<close>, \<open>zoom=3\<close> and a
  parameter \<open>q\<close> of the page's own; the session history has two entries, the second one
  current; no timer is scheduled. The controller is constructed with the defaults \<open>0\<close>,
  \<open>0\<close>, \<open>1\<close> and the default base layer \<open>"osm"\<close>.

  Its \<open>handle_of\<close> is the browser's conversion where that is plain: \<open>undefined\<close>, \<open>null\<close>,
  \<open>NaN\<close> and \<open>false\<close> name no timer, \<open>true\<close> names timer 1, and a number or a string
  written with digits only names the timer of that number when it is positive and below
  \<open>2 ^ 31\<close>. The examples convert nothing else.\<close>

fun digits_value :: "string \<Rightarrow> nat \<Rightarrow> nat option" where
  "digits_value [] n = Some n"
| "digits_value (c # cs) n =
     (let d = (of_char c :: nat) in
      if 48 \<le> d \<and> d \<le> 57 then digits_value cs (10 * n + (d - 48)) else None)"

definition example_handle_of :: "jsval \<Rightarrow> nat option" where
  "example_handle_of v =
     (case v of
        Prim Undefined \<Rightarrow> None
      | Prim Null \<Rightarrow> None
      | Prim NaN \<Rightarrow> None
      | Prim (Bool b) \<Rightarrow> (if b then Some 1 else None)
      | _ \<Rightarrow>
          (case digits_value (to_string v) 0 of
             None \<Rightarrow> None
           | Some n \<Rightarrow> if 0 < n \<and> n < 2 ^ 31 then Some n else None))"

definition example_url :: url where
  "example_url =
     \<lparr>rest = ''https://maps.example/ui'',
      searchParams = [(''lat'', ''5''), (''q'', ''roads''), (''zoom'', ''3'')]\<rparr>"

definition example_page :: window where
  "example_page =
     \<lparr>location = example_url,
      entries = [\<lparr>title = ''Start'', href = \<lparr>rest = ''https://maps.example/'', searchParams = []\<rparr>\<rparr>,
                 \<lparr>title = ''Map'', href = example_url\<rparr>],
      current = 1, now = 0, timers = [], next_id = 1, replaced = [],
      handle_of = example_handle_of\<rparr>"

definition example_control :: UrlControl where
  "example_control =
     constructor (Prim (Str ''osm'')) example_page (Prim (Num ''0'')) (Prim (Num ''0'')) (Prim (Num ''1''))"

section \<open>Construction\<close>

text \<open>
  C1 (amended). The constructor sets \<open>lat\<close>, \<open>lon\<close>, \<open>zoom\<close> and \<open>base\<close>, each to the value
  of the query parameter of that name when the parameter is present and not empty,
  and to the default otherwise (for \<open>base\<close>, the page's default base layer); it sets
  nothing else, and no timer is pending. A parameter that is present with an empty
  value is falsy for \<open>||\<close>, so the default is taken.
\<close>

theorem constructor_fields:
  "constructor default_base_layer w default_lat default_lon default_zoom =
     \<lparr>props =
        [''lat'' \<mapsto> (case map_of (searchParams (location w)) ''lat'' of
                        None \<Rightarrow> default_lat
                      | Some v \<Rightarrow> if v = [] then default_lat else Prim (Str v)),
         ''lon'' \<mapsto> (case map_of (searchParams (location w)) ''lon'' of
                        None \<Rightarrow> default_lon
                      | Some v \<Rightarrow> if v = [] then default_lon else Prim (Str v)),
         ''zoom'' \<mapsto> (case map_of (searchParams (location w)) ''zoom'' of
                        None \<Rightarrow> default_zoom
                      | Some v \<Rightarrow> if v = [] then default_zoom else Prim (Str v)),
         ''base'' \<mapsto> (case map_of (searchParams (location w)) ''base'' of
                        None \<Rightarrow> default_base_layer
                      | Some v \<Rightarrow> if v = [] then default_base_layer else Prim (Str v))],
      timeout = None\<rparr>"
  by (simp add: constructor_def set_prop_def js_or_def searchParams_get_def Let_def
           split: option.split)

text \<open>The example of the specification: a URL with \<open>lat=5\<close> and \<open>zoom=3\<close>, without
  \<open>lon\<close> and \<open>base\<close>, with the defaults \<open>0\<close>, \<open>0\<close>, \<open>1\<close> and the default base layer
  \<open>"osm"\<close>, gives \<open>{lat: "5", lon: 0, zoom: "3", base: "osm"}\<close>.\<close>

theorem constructor_fields_example:
  "example_control
   = \<lparr>props = [''lat'' \<mapsto> Prim (Str ''5''), ''lon'' \<mapsto> Prim (Num ''0''),
               ''zoom'' \<mapsto> Prim (Str ''3''), ''base'' \<mapsto> Prim (Str ''osm'')],
      timeout = None\<rparr>"
  using constructor_fields [of "Prim (Str ''osm'')" example_page
     "Prim (Num ''0'')" "Prim (Num ''0'')" "Prim (Num ''1'')"]
  by (simp add: example_control_def example_page_def example_url_def)

text \<open>The claim as stated fails: with \<open>?lat=\<close> the parameter \<open>lat\<close> is present, its
  value is the empty string, and the field is the default.\<close>

theorem constructor_present_empty_counterexample:
  "searchParams_get ''lat'' [(''lat'', '''')] = Prim (Str '''')
   \<and> get_prop
       (constructor (Prim (Str ''osm''))
          (example_page\<lparr>location := \<lparr>rest = ''https://maps.example/ui'',
                                       searchParams = [(''lat'', '''')]\<rparr>\<rparr>)
          (Prim (Num ''0'')) (Prim (Num ''0'')) (Prim (Num ''1'')))
       ''lat''
     = Prim (Num ''0'')"
  by (simp add: constructor_def set_prop_def get_prop_def js_or_def searchParams_get_def Let_def)

section \<open>The URL that is written\<close>

lemma filter_set_first_other:
  "\<not> P k \<Longrightarrow> filter (\<lambda>q. P (fst q)) (set_first k v ps) = filter (\<lambda>q. P (fst q)) ps"
proof (induction ps)
  case Nil
  then show ?case by simp
next
  case (Cons p ps)
  have "filter (\<lambda>q. P (fst q)) (filter (\<lambda>q. fst q \<noteq> k) ps) = filter (\<lambda>q. P (fst q)) ps"
    using Cons.prems by (induction ps) auto
  with Cons show ?case by auto
qed

lemma filter_set_first_same:
  "k \<in> fst ` set ps \<Longrightarrow> filter (\<lambda>q. fst q = k) (set_first k v ps) = [(k, v)]"
proof (induction ps)
  case Nil
  then show ?case by simp
next
  case (Cons p ps)
  have "filter (\<lambda>q. fst q = k) (filter (\<lambda>q. fst q \<noteq> k) ps) = []"
    by (induction ps) auto
  with Cons show ?case by auto
qed

lemma filter_searchParams_set_other:
  "\<not> P k \<Longrightarrow> filter (\<lambda>q. P (fst q)) (searchParams_set k v ps) = filter (\<lambda>q. P (fst q)) ps"
  by (simp add: searchParams_set_def filter_set_first_other)

lemma filter_searchParams_set_same:
  "filter (\<lambda>q. fst q = k) (searchParams_set k v ps) = [(k, v)]"
proof (cases "k \<in> fst ` set ps")
  case True
  then show ?thesis by (simp add: searchParams_set_def filter_set_first_same)
next
  case False
  then have "filter (\<lambda>q. fst q = k) ps = []"
    by (induction ps) auto
  with False show ?thesis by (simp add: searchParams_set_def)
qed

lemma filter_set_notin:
  "k \<in> S \<Longrightarrow>
   filter (\<lambda>q. fst q \<notin> S) (searchParams_set k v ps) = filter (\<lambda>q. fst q \<notin> S) ps"
  using filter_searchParams_set_other [where P = "\<lambda>x. x \<notin> S"] by simp

lemma filter_set_neq:
  "k' \<noteq> k \<Longrightarrow>
   filter (\<lambda>q. fst q = k') (searchParams_set k v ps) = filter (\<lambda>q. fst q = k') ps"
  using filter_searchParams_set_other [where P = "\<lambda>x. x = k'"] by simp

lemma build_url_rest: "rest (build_url this u) = rest u"
  by (simp add: build_url_def)

lemma build_url_others:
  "filter (\<lambda>q. fst q \<notin> {''lat'', ''lon'', ''zoom'', ''base''}) (searchParams (build_url this u))
   = filter (\<lambda>q. fst q \<notin> {''lat'', ''lon'', ''zoom'', ''base''}) (searchParams u)"
proof -
  let ?S = "{''lat'', ''lon'', ''zoom'', ''base''}"
  have keep: "filter (\<lambda>q. fst q \<notin> ?S) (searchParams_set k v ps) = filter (\<lambda>q. fst q \<notin> ?S) ps"
    if "k \<in> ?S" for k v ps
    using that by (rule filter_set_notin)
  have "filter (\<lambda>q. fst q \<notin> ?S) (searchParams (build_url this u))
        = filter (\<lambda>q. fst q \<notin> ?S)
            (searchParams_set ''base'' (to_string (get_prop this ''base''))
              (searchParams_set ''zoom'' (to_string (get_prop this ''zoom''))
                (searchParams_set ''lon'' (to_string (get_prop this ''lon''))
                  (searchParams_set ''lat'' (to_string (get_prop this ''lat''))
                    (searchParams u)))))"
    by (simp add: build_url_def)
  also have "\<dots> = filter (\<lambda>q. fst q \<notin> ?S) (searchParams u)"
    by (subst keep, simp)+ (rule refl)
  finally show ?thesis .
qed

lemma build_url_four:
  "p \<in> {''lat'', ''lon'', ''zoom'', ''base''} \<Longrightarrow>
   filter (\<lambda>q. fst q = p) (searchParams (build_url this u)) = [(p, to_string (get_prop this p))]"
  by (auto simp: build_url_def filter_set_neq filter_searchParams_set_same)

lemma build_url_cong: "props a = props b \<Longrightarrow> build_url a u = build_url b u"
  by (simp add: build_url_def get_prop_def)

section \<open>The timer\<close>

lemma change_history_window:
  "pending_ok this w \<Longrightarrow>
   UrlControl_change_history this w =
     (this\<lparr>timeout := Some (next_id w)\<rparr>,
      w\<lparr>timers := [\<lparr>timer_id = next_id w, due = now w + 300,
                     captured = build_url this (location w)\<rparr>],
        next_id := Suc (next_id w)\<rparr>)"
  by (auto simp: pending_ok_def UrlControl_change_history_def clearTimeout_def setTimeout_def
           handle_def Let_def split: list.splits option.splits)

lemma change_history_props [simp]: "props (fst (UrlControl_change_history this w)) = props this"
  by (simp add: UrlControl_change_history_def setTimeout_def Let_def)

lemma change_history_get_prop:
  "p \<noteq> ''timeout'' \<Longrightarrow> get_prop (fst (UrlControl_change_history this w)) p = get_prop this p"
  by (simp add: get_prop_def)

lemma field_name_not_timeout: "field_name p \<Longrightarrow> p \<noteq> ''timeout''"
  by (auto simp: field_name_def members_def)

lemma change_history_scheduled:
  "last (timers (snd (UrlControl_change_history this w)))
     = \<lparr>timer_id = next_id w, due = now w + 300, captured = build_url this (location w)\<rparr>"
  by (simp add: UrlControl_change_history_def setTimeout_def clearTimeout_def Let_def
           split: option.splits)

lemma constructor_pending_ok:
  "timers w = [] \<Longrightarrow>
   pending_ok (constructor default_base_layer w default_lat default_lon default_zoom) w"
  by (simp add: pending_ok_def)

lemma elapse_none: "timers w = [] \<Longrightarrow> elapse d w = w\<lparr>now := now w + d\<rparr>"
  by (simp add: elapse_def)

lemma elapse_early:
  "timers w = [t] \<Longrightarrow> now w + d < due t \<Longrightarrow> elapse d w = w\<lparr>now := now w + d\<rparr>"
  by (simp add: elapse_def)

lemma elapse_due:
  "timers w = [t] \<Longrightarrow> due t \<le> now w + d \<Longrightarrow>
   elapse d w = replaceState ''WMS UI'' (captured t) (w\<lparr>now := now w + d, timers := []\<rparr>)"
  by (simp add: elapse_def fire_def)

text \<open>The definitions that evaluating an example unfolds.\<close>

lemmas page_defs =
  example_control_def example_page_def example_url_def constructor_def set_prop_def get_prop_def
  js_or_def searchParams_get_def searchParams_set_def build_url_def
  UrlControl_change_history_def clearTimeout_def setTimeout_def elapse_def fire_def
  replaceState_def remove_from_list_def add_to_list_def change_param_def change_params_def
  object_get_def strict_eq_def pending_ok_def field_name_def members_def Let_def
  handle_def example_handle_of_def calling_change_history_def finds_change_history_def

text \<open>
  C3. Whatever the current URL is, the write that a history update commits (the timer
  firing 300 time units after \<open>_change_history\<close>) leaves a URL in which each of \<open>lat\<close>,
  \<open>lon\<close>, \<open>zoom\<close> and \<open>base\<close> occurs once, with the field converted to a string, and in
  which the pairs of every other name are those of the URL before, in the same order;
  the rest of the URL is unchanged. The write overwrites the current entry of the
  session history, with the title \<open>'WMS UI'\<close>: the history has as many entries as
  before and the same one is current. The controller is the only one to schedule
  timers (\<open>pending_ok\<close>).
\<close>

theorem history_write:
  assumes "pending_ok this w"
  shows "(let w' = elapse 300 (snd (UrlControl_change_history this w)) in
          (\<forall>p \<in> {''lat'', ''lon'', ''zoom'', ''base''}.
             filter (\<lambda>q. fst q = p) (searchParams (location w'))
               = [(p, to_string (get_prop this p))])
          \<and> filter (\<lambda>q. fst q \<notin> {''lat'', ''lon'', ''zoom'', ''base''}) (searchParams (location w'))
              = filter (\<lambda>q. fst q \<notin> {''lat'', ''lon'', ''zoom'', ''base''}) (searchParams (location w))
          \<and> rest (location w') = rest (location w)
          \<and> entries w' = (entries w)[current w := \<lparr>title = ''WMS UI'', href = location w'\<rparr>]
          \<and> length (entries w') = length (entries w)
          \<and> current w' = current w
          \<and> replaced w' = replaced w @ [\<lparr>title = ''WMS UI'', href = location w'\<rparr>])"
proof -
  let ?u = "build_url this (location w)"
  let ?t = "\<lparr>timer_id = next_id w, due = now w + 300, captured = ?u\<rparr>"
  let ?w1 = "w\<lparr>timers := [?t], next_id := Suc (next_id w)\<rparr>"
  have w1: "snd (UrlControl_change_history this w) = ?w1"
    using assms by (simp add: change_history_window)
  have "elapse 300 ?w1 = replaceState ''WMS UI'' ?u (?w1\<lparr>now := now ?w1 + 300, timers := []\<rparr>)"
    using elapse_due [of ?w1 ?t 300] by simp
  then have w': "elapse 300 (snd (UrlControl_change_history this w))
      = replaceState ''WMS UI'' ?u (?w1\<lparr>now := now ?w1 + 300, timers := []\<rparr>)"
    using w1 by simp
  show ?thesis
    unfolding w' Let_def
    by (simp add: replaceState_def build_url_rest build_url_others build_url_four
             del: insert_iff)
qed

text \<open>On the example page the parameter \<open>q\<close> of the page keeps its value and its place,
  \<open>lat\<close> and \<open>zoom\<close> are overwritten in place, \<open>lon\<close> and \<open>base\<close> are appended, and
  the second entry of the history is replaced.\<close>

theorem history_write_example:
  "pending_ok example_control example_page
   \<and> (let w' = elapse 300 (snd (UrlControl_change_history example_control example_page)) in
        location w' =
          \<lparr>rest = ''https://maps.example/ui'',
           searchParams = [(''lat'', ''5''), (''q'', ''roads''), (''zoom'', ''3''),
                           (''lon'', ''0''), (''base'', ''osm'')]\<rparr>
        \<and> entries w' =
            [\<lparr>title = ''Start'', href = \<lparr>rest = ''https://maps.example/'', searchParams = []\<rparr>\<rparr>,
             \<lparr>title = ''WMS UI'', href = location w'\<rparr>]
        \<and> current w' = 1)"
  using history_write [of example_control example_page]
  by (simp add: page_defs)

section \<open>List fields\<close>

lemma not_strict_eq_filter: "v \<notin> set xs \<Longrightarrow> filter (\<lambda>item. \<not> strict_eq item v) xs = xs"
  by (induction xs) (auto simp: strict_eq_def)

lemma strict_eq_removeAll: "v \<noteq> NaN \<Longrightarrow> filter (\<lambda>item. \<not> strict_eq item v) xs = removeAll v xs"
  by (induction xs) (auto simp: strict_eq_def)






section \<open>Assignments\<close>

lemma fold_set_prop_props:
  "props (fold (\<lambda>name this. set_prop name (object_get params name) this) ks this)
   = (\<lambda>name. if name \<in> set ks then Some (object_get params name) else props this name)"
  by (induction ks arbitrary: this) (auto simp: set_prop_def)

lemma fold_set_prop_timeout:
  "''timeout'' \<notin> set ks \<Longrightarrow>
   timeout (fold (\<lambda>name this. set_prop name (object_get params name) this) ks this) = timeout this"
  by (induction ks arbitrary: this) (auto simp: set_prop_def)

lemma fold_set_prop_override:
  "props (fold (\<lambda>name this. set_prop name (object_get params name) this) (map fst params) this)
   = props this ++ map_of params"
  unfolding fold_set_prop_props
  by (auto simp: fun_eq_iff map_add_def object_get_def map_of_eq_None_iff
        dest: map_of_SomeD weak_map_of_SomeI split: option.splits) (force dest: map_of_SomeD)

lemma fold_set_prop_eq:
  "''timeout'' \<notin> fst ` set params \<Longrightarrow>
   fold (\<lambda>name this. set_prop name (object_get params name) this) (map fst params) this
   = this\<lparr>props := props this ++ map_of params\<rparr>"
  using fold_set_prop_override [of params this]
    fold_set_prop_timeout [of "map fst params" params this]
  by (cases this) (simp add: UrlControl.defs)

lemma change_params_props:
  "props (fst (change_params params this w)) = props this ++ map_of params"
  by (simp add: change_params_def fold_set_prop_override)

lemma pending_ok_cong:
  "timeout a = timeout b \<Longrightarrow> pending_ok a w = pending_ok b w"
  by (simp add: pending_ok_def split: list.splits)

lemma field_names_map_of:
  "list_all (\<lambda>q. field_name (fst q)) params \<Longrightarrow> \<not> field_name m \<Longrightarrow> map_of params m = None"
  by (auto simp: list_all_iff map_of_eq_None_iff)

lemma field_names_not_timeout:
  "list_all (\<lambda>q. field_name (fst q)) params \<Longrightarrow> ''timeout'' \<notin> fst ` set params"
  by (force simp: list_all_iff dest: field_name_not_timeout)

lemma finds_change_history_cong:
  "props a ''_change_history'' = props b ''_change_history'' \<Longrightarrow>
   props a ''__proto__'' = props b ''__proto__'' \<Longrightarrow>
   finds_change_history a = finds_change_history b"
  by (simp add: finds_change_history_def)

lemma finds_change_history_set_prop:
  "field_name p \<Longrightarrow> finds_change_history (set_prop p v this) = finds_change_history this"
  by (rule finds_change_history_cong)
    (auto simp: set_prop_def field_name_def members_def)

lemma finds_change_history_change_history:
  "finds_change_history (fst (UrlControl_change_history this w)) = finds_change_history this"
  by (rule finds_change_history_cong) simp_all

lemma calling_change_history_Inr:
  "calling_change_history c = Inr c' \<longleftrightarrow> c' = c \<and> finds_change_history (fst c)"
  by (auto simp: calling_change_history_def)

lemma calling_change_history_result:
  "calling_change_history c = Inr c' \<longleftrightarrow> c = c' \<and> finds_change_history (fst c')"
  by (auto simp: calling_change_history_def)

text \<open>
  C6 (amended). On a controller on which \<open>this._change_history\<close> is the method of the
  class, and for a mapping whose keys are field names (none of them the name of a
  member of the class), \<open>change_params\<close> does not raise and is one history update on the
  controller in which every property of the mapping has been assigned: afterwards each
  field named by the mapping holds the value given for it, one timer id has been used,
  and one timer is scheduled. \<open>change_param\<close> on a field name assigns the field; it
  updates the history when its third argument is missing, \<open>undefined\<close> or truthy
  (\<open>true\<close> is), and does nothing else when it is another falsy value (\<open>false\<close> is).
\<close>

theorem change_params_once:
  assumes "list_all (\<lambda>q. field_name (fst q)) params" and "field_name param"
    and "finds_change_history this"
  shows "step (Change_params params) (this, w)
           = Inr (UrlControl_change_history (this\<lparr>props := props this ++ map_of params\<rparr>) w)
       \<and> change_params params this w
           = UrlControl_change_history (this\<lparr>props := props this ++ map_of params\<rparr>) w
       \<and> (distinct (map fst params) \<longrightarrow>
            (\<forall>q \<in> set params. get_prop (fst (change_params params this w)) (fst q) = snd q))
       \<and> next_id (snd (change_params params this w)) = Suc (next_id w)
       \<and> (pending_ok this w \<longrightarrow> length (timers (snd (change_params params this w))) = 1)
       \<and> step (Change_param param v change_history) (this, w)
           = Inr (if change_history = Prim Undefined \<or> truthy change_history
                  then UrlControl_change_history (set_prop param v this) w
                  else (set_prop param v this, w))"
proof -
  let ?this' = "this\<lparr>props := props this ++ map_of params\<rparr>"
  have eq: "change_params params this w = UrlControl_change_history ?this' w"
    using field_names_not_timeout [OF assms(1)]
    by (simp add: change_params_def fold_set_prop_eq)
  have "map_of params ''_change_history'' = None" and "map_of params ''__proto__'' = None"
    using assms(1) by (auto intro!: field_names_map_of simp: field_name_def members_def)
  then have "finds_change_history ?this' = finds_change_history this"
    by (intro finds_change_history_cong) (simp_all add: map_add_def)
  with assms(3) have found: "finds_change_history (fst (UrlControl_change_history ?this' w))"
    by (simp add: finds_change_history_change_history)
  have call: "step (Change_params params) (this, w) = Inr (UrlControl_change_history ?this' w)"
    using found by (simp add: eq calling_change_history_def)
  have each: "get_prop (fst (change_params params this w)) (fst q) = snd q"
    if "distinct (map fst params)" and "q \<in> set params" for q
  proof -
    from that have "map_of params (fst q) = Some (snd q)" by simp
    moreover from that(2) assms(1) have "fst q \<noteq> ''timeout''"
      by (auto simp: list_all_iff dest: field_name_not_timeout)
    ultimately show ?thesis by (simp add: eq get_prop_def)
  qed
  have id: "next_id (snd (change_params params this w)) = Suc (next_id w)"
    by (simp add: eq UrlControl_change_history_def setTimeout_def clearTimeout_def Let_def
          split: option.splits)
  have one: "length (timers (snd (change_params params this w))) = 1" if "pending_ok this w"
  proof -
    from that have "pending_ok ?this' w"
      using pending_ok_cong [of ?this' this w] by simp
    then show ?thesis by (simp add: eq change_history_window)
  qed
  have "finds_change_history (set_prop param v this)"
    using assms(2,3) by (simp add: finds_change_history_set_prop)
  then have single: "step (Change_param param v change_history) (this, w)
           = Inr (if change_history = Prim Undefined \<or> truthy change_history
                  then UrlControl_change_history (set_prop param v this) w
                  else (set_prop param v this, w))"
    by (auto simp: change_param_def Let_def calling_change_history_def
          finds_change_history_change_history)
  from call eq each id one single show ?thesis by blast
qed

text \<open>The example of the specification: \<open>change_params({lat: 10, zoom: 5})\<close> sets both
  fields and schedules one write; a silent \<open>change_param\<close> schedules none.\<close>

theorem change_params_example:
  "list_all (\<lambda>q. field_name (fst q)) [(''lat'', Prim (Num ''10'')), (''zoom'', Prim (Num ''5''))]
   \<and> field_name ''lon'' \<and> finds_change_history example_control
   \<and> (case step (Change_params [(''lat'', Prim (Num ''10'')), (''zoom'', Prim (Num ''5''))])
              (example_control, example_page) of
        Inl err \<Rightarrow> False
      | Inr (this', w') \<Rightarrow>
          get_prop this' ''lat'' = Prim (Num ''10'') \<and> get_prop this' ''zoom'' = Prim (Num ''5'')
          \<and> map timer_id (timers w') = [1] \<and> next_id w' = 2)
   \<and> (case step (Change_param ''lon'' (Prim (Num ''7'')) (Prim (Bool False)))
              (example_control, example_page) of
        Inl err \<Rightarrow> False
      | Inr (this', w') \<Rightarrow>
          get_prop this' ''lon'' = Prim (Num ''7'') \<and> timers w' = [] \<and> next_id w' = 1)"
  using change_params_once [where params = "[(''lat'', Prim (Num ''10'')), (''zoom'', Prim (Num ''5''))]"
      and param = "''lon''" and this = example_control and w = example_page
      and v = "Prim (Num ''7'')" and change_history = "Prim (Bool False)"]
  by (simp add: page_defs)

text \<open>The claim as stated fails for a mapping with a key that is the name of a member.
  \<open>change_params({_change_history: 5})\<close> stores 5 under the name of the method, so the
  call \<open>this._change_history()\<close> that follows raises a \<open>TypeError\<close> and no history update
  is made. And with a write pending, \<open>change_params({timeout: null})\<close> overwrites the
  handle, so that write is not cancelled: two timers are scheduled afterwards, and the
  field \<open>timeout\<close> holds the id of the new timer, not \<open>null\<close>.\<close>

theorem change_params_member_counterexample:
  "step (Change_params [(''_change_history'', Prim (Num ''5''))]) (example_control, example_page)
     = Inl TypeError
   \<and> (case step (Change_params [(''timeout'', Prim Null)])
              (UrlControl_change_history example_control example_page) of
        Inl err \<Rightarrow> False
      | Inr (this', w') \<Rightarrow>
          map timer_id (timers w') = [1, 2] \<and> get_prop this' ''timeout'' = Prim (Num ''2''))"
  by (simp add: page_defs decimal.simps char_of_def bit_0)

section \<open>Debouncing\<close>

lemma run_append:
  "run (es @ fs) c = (case run es c of Inl err \<Rightarrow> Inl err | Inr c' \<Rightarrow> run fs c')"
  by (induction es arbitrary: c) (auto split: sum.splits)

lemma same_timeout_ex:
  "timeout A = timeout this \<Longrightarrow>
   \<exists>X. timeout X = timeout this \<and> UrlControl_change_history A w = UrlControl_change_history X w"
  by blast

lemma step_request:
  assumes "requests_history e" and "well_named e" and "step e (this, w) = Inr c"
  shows "\<exists>X. timeout X = timeout this \<and> c = UrlControl_change_history X w"
proof (cases e)
  case (Remove_from_list param v)
  with assms have "param \<noteq> ''timeout''"
    by (auto dest: field_name_not_timeout)
  with Remove_from_list assms(3) show ?thesis
    by (auto simp: remove_from_list_def set_prop_def calling_change_history_Inr
          split: sum.splits bool.splits intro!: same_timeout_ex)
next
  case (Add_to_list param v)
  with assms have "param \<noteq> ''timeout''"
    by (auto dest: field_name_not_timeout)
  with Add_to_list assms(3) show ?thesis
    by (auto simp: add_to_list_def set_prop_def calling_change_history_Inr
          split: sum.splits bool.splits intro!: same_timeout_ex)
next
  case (Change_param param v flag)
  with assms have "param \<noteq> ''timeout''"
    by (auto dest: field_name_not_timeout)
  with Change_param assms(1,3) show ?thesis
    by (auto simp: change_param_def set_prop_def Let_def calling_change_history_Inr
          split: if_splits intro!: same_timeout_ex)
next
  case (Change_params params)
  with assms(2) have "''timeout'' \<notin> fst ` set params"
    by (simp add: field_names_not_timeout)
  with Change_params assms(3) show ?thesis
    by (auto simp: change_params_def fold_set_prop_eq calling_change_history_Inr
          intro!: same_timeout_ex)
next
  case (Elapse d)
  with assms show ?thesis by simp
qed

lemma step_request_window:
  assumes "requests_history e" and "well_named e"
    and "step e (this, w) = Inr (this', w')" and "pending_ok this w"
  shows "timeout this' = Some (next_id w)
         \<and> w' = w\<lparr>timers := [\<lparr>timer_id = next_id w, due = now w + 300,
                               captured = build_url this' (location w)\<rparr>],
                  next_id := Suc (next_id w)\<rparr>"
proof -
  from step_request [OF assms(1,2,3)] obtain X
    where X: "timeout X = timeout this" "(this', w') = UrlControl_change_history X w"
    by blast
  from X(1) assms(4) have "pending_ok X w"
    using pending_ok_cong by blast
  from change_history_window [OF this] X(2)
  have eq: "this' = X\<lparr>timeout := Some (next_id w)\<rparr>"
    "w' = w\<lparr>timers := [\<lparr>timer_id = next_id w, due = now w + 300,
                         captured = build_url X (location w)\<rparr>],
            next_id := Suc (next_id w)\<rparr>"
    by simp_all
  have "build_url X (location w) = build_url this' (location w)"
    by (rule build_url_cong) (simp add: eq(1))
  with eq show ?thesis by simp
qed

lemma elapse_pending_ok: "pending_ok this w \<Longrightarrow> pending_ok this (elapse d w)"
proof (cases "timers w")
  case Nil
  then show ?thesis by (simp add: elapse_none pending_ok_def)
next
  case (Cons t ts)
  assume "pending_ok this w"
  with Cons have one: "timers w = [t]" and h: "timeout this = Some (timer_id t)"
    by (auto simp: pending_ok_def split: list.splits)
  show ?thesis
  proof (cases "due t \<le> now w + d")
    case True
    with one show ?thesis by (simp add: elapse_due replaceState_def pending_ok_def)
  next
    case False
    with one h show ?thesis by (simp add: elapse_early pending_ok_def)
  qed
qed

lemma step_pending_ok:
  assumes "pending_ok this w" and "well_named e" and "step e (this, w) = Inr (this', w')"
  shows "pending_ok this' w'"
proof (cases "requests_history e")
  case True
  from step_request_window [OF True assms(2,3,1)] show ?thesis by (simp add: pending_ok_def)
next
  case False
  show ?thesis
  proof (cases e)
    case (Change_param param v flag)
    with assms have "param \<noteq> ''timeout''"
      by (auto dest: field_name_not_timeout)
    with Change_param False assms show ?thesis
      by (auto simp: change_param_def set_prop_def Let_def pending_ok_def
            split: if_splits list.splits)
  next
    case (Elapse d)
    with assms elapse_pending_ok [of this w d] show ?thesis by auto
  qed (use False in simp_all)
qed

lemma run_pending_ok:
  "pending_ok this w \<Longrightarrow> list_all well_named es \<Longrightarrow>
   run es (this, w) = Inr (this', w') \<Longrightarrow> pending_ok this' w'"
proof (induction es arbitrary: this w)
  case Nil
  then show ?case by simp
next
  case (Cons e es)
  from Cons.prems(3) obtain this1 w1
    where s: "step e (this, w) = Inr (this1, w1)" and r: "run es (this1, w1) = Inr (this', w')"
    by (auto split: sum.splits)
  from Cons.prems(2) have e: "well_named e" and es: "list_all well_named es"
    by simp_all
  from step_pending_ok [OF Cons.prems(1) e s] have "pending_ok this1 w1" .
  from Cons.IH [OF this es r] show ?case .
qed

lemma pending_ok_length: "pending_ok this w \<Longrightarrow> length (timers w) \<le> 1"
  by (auto simp: pending_ok_def split: list.splits)

lemma burst_quiet:
  assumes "pending_ok this w"
    and "list_all (\<lambda>(e, pause). requests_history e \<and> pause < 300) calls"
    and "run (burst calls) (this, w) = Inr (this', w')"
    and "list_all well_named (map fst calls)"
  shows "pending_ok this' w' \<and> replaced w' = replaced w \<and> location w' = location w"
  using assms
proof (induction calls arbitrary: this w)
  case Nil
  then show ?case by simp
next
  case (Cons a calls)
  obtain e pause where a: "a = (e, pause)" by (cases a)
  from Cons.prems(2,4) a have e: "requests_history e" and p: "pause < 300"
    and rest: "list_all (\<lambda>(e, pause). requests_history e \<and> pause < 300) calls"
    and n: "well_named e" and ns: "list_all well_named (map fst calls)"
    by simp_all
  from Cons.prems(3) a obtain this1 w1
    where s: "step e (this, w) = Inr (this1, w1)"
      and r: "run (burst calls) (this1, elapse pause w1) = Inr (this', w')"
    by (auto split: sum.splits)
  let ?t = "\<lparr>timer_id = next_id w, due = now w + 300, captured = build_url this1 (location w)\<rparr>"
  from step_request_window [OF e n s Cons.prems(1)]
  have h: "timeout this1 = Some (next_id w)"
    and w1: "w1 = w\<lparr>timers := [?t], next_id := Suc (next_id w)\<rparr>"
    by simp_all
  have el: "elapse pause w1 = w1\<lparr>now := now w1 + pause\<rparr>"
    using p by (intro elapse_early [where t = ?t]) (simp_all add: w1)
  have ok: "pending_ok this1 (elapse pause w1)"
    unfolding el using p h by (simp add: w1 pending_ok_def)
  from Cons.IH [OF ok rest r ns] show ?case
    unfolding el by (simp add: w1)
qed

text \<open>
  C2 (amended). When the timers of the window are the controller's (\<open>pending_ok\<close>, as at
  construction on a page without timers), a history update cancels the write that is
  pending and schedules one, 300 time units ahead: afterwards exactly that timer is
  scheduled. Hence, whatever calls are made that name fields (no call stores a value
  under the name of a member of the class, \<open>timeout\<close> among them) and however much
  time passes between them, at most one write is pending. And when such calls that
  update the history follow each other, none raising and each less than 300 time units
  after the one before, then 300 time units or more after the last of them exactly one write has been
  made, of the URL built from the fields as the last call left them. Three calls are
  the case of a burst of two followed by the last call.
\<close>

theorem debounce:
  assumes "pending_ok this w"
  shows "snd (UrlControl_change_history this w)
           = w\<lparr>timers := [\<lparr>timer_id = next_id w, due = now w + 300,
                             captured = build_url this (location w)\<rparr>],
                next_id := Suc (next_id w)\<rparr>
       \<and> (\<forall>es this' w'. list_all well_named es \<and> run es (this, w) = Inr (this', w')
             \<longrightarrow> pending_ok this' w' \<and> length (timers w') \<le> 1)
       \<and> (\<forall>calls e pause this' w'.
             list_all (\<lambda>(e, pause). requests_history e \<and> pause < 300) calls
             \<and> list_all well_named (e # map fst calls)
             \<and> requests_history e \<and> 300 \<le> pause
             \<and> run (burst calls @ [e]) (this, w) = Inr (this', w')
             \<longrightarrow> timers (elapse pause w') = []
               \<and> replaced (elapse pause w')
                   = replaced w @ [\<lparr>title = ''WMS UI'', href = build_url this' (location w)\<rparr>])"
proof (intro conjI allI impI)
  show "snd (UrlControl_change_history this w)
           = w\<lparr>timers := [\<lparr>timer_id = next_id w, due = now w + 300,
                             captured = build_url this (location w)\<rparr>],
                next_id := Suc (next_id w)\<rparr>"
    using assms by (simp add: change_history_window)
next
  fix es this' w'
  assume "list_all well_named es \<and> run es (this, w) = Inr (this', w')"
  then have "pending_ok this' w'"
    using run_pending_ok [OF assms] by blast
  then show "pending_ok this' w'" and "length (timers w') \<le> 1"
    using pending_ok_length by blast+
next
  fix calls e and pause :: nat and this' w'
  assume a: "list_all (\<lambda>(e, pause). requests_history e \<and> pause < 300) calls
             \<and> list_all well_named (e # map fst calls)
             \<and> requests_history e \<and> 300 \<le> pause
             \<and> run (burst calls @ [e]) (this, w) = Inr (this', w')"
  then obtain this1 w1
    where b: "run (burst calls) (this, w) = Inr (this1, w1)"
      and s: "step e (this1, w1) = Inr (this', w')"
    by (auto simp: run_append split: sum.splits)
  from burst_quiet [OF assms _ b] a
  have q: "pending_ok this1 w1" "replaced w1 = replaced w" "location w1 = location w"
    by simp_all
  let ?t = "\<lparr>timer_id = next_id w1, due = now w1 + 300, captured = build_url this' (location w1)\<rparr>"
  from step_request_window [OF _ _ s q(1)] a
  have w': "w' = w1\<lparr>timers := [?t], next_id := Suc (next_id w1)\<rparr>"
    by simp
  have el: "elapse pause w'
      = replaceState ''WMS UI'' (captured ?t) (w'\<lparr>now := now w' + pause, timers := []\<rparr>)"
    using a by (intro elapse_due) (simp_all add: w')
  show "timers (elapse pause w') = []"
    unfolding el by (simp add: replaceState_def)
  show "replaced (elapse pause w')
          = replaced w @ [\<lparr>title = ''WMS UI'', href = build_url this' (location w)\<rparr>]"
    unfolding el by (simp add: replaceState_def w' q)
qed

text \<open>Three calls, 100 and 299 time units apart, on a controller whose \<open>layers\<close> is the
  empty list: three timers were created, one write is made, and it carries the \<open>lat\<close> of
  the third call, not that of the first.\<close>

theorem debounce_three_calls:
  "pending_ok (set_prop ''layers'' (Arr []) example_control) example_page
   \<and> (case run (burst [(Change_param ''lat'' (Prim (Num ''10'')) (Prim (Bool True)), 100),
                        (Add_to_list ''layers'' (Str ''x''), 299)]
                 @ [Change_param ''lat'' (Prim (Num ''20'')) (Prim Undefined)])
              (set_prop ''layers'' (Arr []) example_control, example_page) of
        Inl err \<Rightarrow> False
      | Inr (this', w') \<Rightarrow>
          get_prop this' ''lat'' = Prim (Num ''20'')
          \<and> get_prop this' ''layers'' = Arr [Str ''x'']
          \<and> map timer_id (timers w') = [3]
          \<and> timers (elapse 300 w') = []
          \<and> replaced (elapse 300 w') =
              [\<lparr>title = ''WMS UI'',
                href = \<lparr>rest = ''https://maps.example/ui'',
                         searchParams = [(''lat'', ''20''), (''q'', ''roads''), (''zoom'', ''3''),
                                         (''lon'', ''0''), (''base'', ''osm'')]\<rparr>\<rparr>])"
  using debounce [of "set_prop ''layers'' (Arr []) example_control" example_page]
  by (simp add: page_defs)

text \<open>The claim as stated fails for a call that stores a value under the name
  \<open>timeout\<close>. Three calls, 100 time units apart; the second is
  \<open>change_param("timeout", null)\<close>. It overwrites the handle before the history update
  reads it, so the write of the first call is not cancelled: after the third call two
  writes are pending, and both are made.\<close>

theorem debounce_timeout_field_counterexample:
  "(case run [Change_param ''lat'' (Prim (Num ''10'')) (Prim (Bool True)), Elapse 100,
              Change_param ''timeout'' (Prim Null) (Prim (Bool True)), Elapse 100,
              Change_param ''lat'' (Prim (Num ''20'')) (Prim (Bool True))]
             (example_control, example_page) of
      Inl err \<Rightarrow> False
    | Inr (this', w') \<Rightarrow>
        map timer_id (timers w') = [1, 3]
        \<and> timers (elapse 300 w') = []
        \<and> map (\<lambda>e. searchParams_get ''lat'' (searchParams (href e))) (replaced (elapse 300 w'))
            = [Prim (Str ''10''), Prim (Str ''20'')])"
  by (simp add: page_defs)

text \<open>
  C10. The URL that the timer writes is the one built when the history update was
  requested, from the location and the fields of that moment. A \<open>change_param\<close> without
  history update and a change of the location between the request and the firing of the
  timer do not change what is written: the write puts the URL of the request back.
\<close>

theorem write_is_precomputed:
  assumes "pending_ok this w" and "field_name param" and "300 \<le> pause"
  shows "(let (this1, w1) = UrlControl_change_history this w;
              written = build_url this (location w) in
          captured (last (timers w1)) = written
          \<and> run [Change_param param v (Prim (Bool False)), Elapse pause]
                (this1, w1\<lparr>location := u\<rparr>)
              = Inr (set_prop param v this1,
                     w1\<lparr>location := written,
                        entries := (entries w)[current w := \<lparr>title = ''WMS UI'', href = written\<rparr>],
                        replaced := replaced w @ [\<lparr>title = ''WMS UI'', href = written\<rparr>],
                        now := now w + pause,
                        timers := []\<rparr>))"
proof -
  let ?u = "build_url this (location w)"
  let ?t = "\<lparr>timer_id = next_id w, due = now w + 300, captured = ?u\<rparr>"
  let ?w1 = "w\<lparr>timers := [?t], next_id := Suc (next_id w)\<rparr>"
  have c: "UrlControl_change_history this w = (this\<lparr>timeout := Some (next_id w)\<rparr>, ?w1)"
    using assms(1) by (rule change_history_window)
  have el: "elapse pause (?w1\<lparr>location := u\<rparr>)
      = replaceState ''WMS UI'' (captured ?t)
          (?w1\<lparr>location := u\<rparr>\<lparr>now := now (?w1\<lparr>location := u\<rparr>) + pause, timers := []\<rparr>)"
    using assms(3) by (intro elapse_due) simp_all
  show ?thesis
    unfolding c Let_def prod.case
    by (simp add: change_param_def Let_def el replaceState_def)
qed

text \<open>After the request the field \<open>lat\<close> becomes \<open>99\<close> silently and the page moves to
  \<open>?q=rivers\<close>; the write still carries \<open>lat=5\<close> and \<open>q=roads\<close>, which is not the URL
  that the fields and the location of that moment would give.\<close>

theorem write_is_precomputed_example:
  "pending_ok example_control example_page \<and> field_name ''lat'' \<and> (300::nat) \<le> 300
   \<and> (let (this1, w1) = UrlControl_change_history example_control example_page in
        case run [Change_param ''lat'' (Prim (Num ''99'')) (Prim (Bool False)), Elapse 300]
               (this1, w1\<lparr>location := \<lparr>rest = ''https://maps.example/ui'',
                                         searchParams = [(''q'', ''rivers'')]\<rparr>\<rparr>) of
          Inl err \<Rightarrow> False
        | Inr (this', w') \<Rightarrow>
            get_prop this' ''lat'' = Prim (Num ''99'')
            \<and> location w' =
                \<lparr>rest = ''https://maps.example/ui'',
                 searchParams = [(''lat'', ''5''), (''q'', ''roads''), (''zoom'', ''3''),
                                 (''lon'', ''0''), (''base'', ''osm'')]\<rparr>
            \<and> map href (replaced w') = [location w']
            \<and> build_url this' \<lparr>rest = ''https://maps.example/ui'',
                                 searchParams = [(''q'', ''rivers'')]\<rparr>
                = \<lparr>rest = ''https://maps.example/ui'',
                   searchParams = [(''q'', ''rivers''), (''lat'', ''99''), (''lon'', ''0''),
                                   (''zoom'', ''3''), (''base'', ''osm'')]\<rparr>)"
  using write_is_precomputed [of example_control example_page "''lat''" 300 "Prim (Num ''99'')"
      "\<lparr>rest = ''https://maps.example/ui'', searchParams = [(''q'', ''rivers'')]\<rparr>"]
  by (simp add: page_defs)

section \<open>Lists without duplicates\<close>

lemma set_prop_duplicate_free:
  "duplicate_free this \<Longrightarrow> no_duplicates v \<Longrightarrow> duplicate_free (set_prop p v this)"
  by (simp add: duplicate_free_def set_prop_def)

lemma change_history_duplicate_free:
  "duplicate_free (fst (UrlControl_change_history this w)) = duplicate_free this"
  by (simp add: duplicate_free_def)

lemma get_prop_no_duplicates:
  "duplicate_free this \<Longrightarrow> get_prop this p = Arr xs \<Longrightarrow> distinct xs"
proof -
  assume d: "duplicate_free this" and g: "get_prop this p = Arr xs"
  from g have "props this p = Some (Arr xs)"
    by (simp add: get_prop_def split: option.splits if_splits)
  with d have "no_duplicates (Arr xs)"
    unfolding duplicate_free_def by blast
  then show ?thesis by simp
qed

lemma step_duplicate_free:
  assumes "duplicate_free this" and "hands_no_duplicates e"
    and "step e (this, w) = Inr (this', w')"
  shows "duplicate_free this'"
proof (cases e)
  case (Remove_from_list param v)
  show ?thesis
  proof (cases "get_prop this param")
    case (Prim x)
    with assms Remove_from_list have "this' = fst (UrlControl_change_history this w)"
      by (cases x) (auto simp: remove_from_list_def calling_change_history_result split: if_splits bool.splits sum.splits)
    with assms(1) show ?thesis by (simp add: change_history_duplicate_free)
  next
    case (Arr xs)
    with assms(1) have "distinct xs" by (rule get_prop_no_duplicates)
    then have "duplicate_free (set_prop param (Arr (filter (\<lambda>item. \<not> strict_eq item v) xs)) this)"
      using assms(1) by (intro set_prop_duplicate_free) simp_all
    with assms Remove_from_list Arr show ?thesis
      by (cases "v \<in> set xs")
        (auto simp: remove_from_list_def change_history_duplicate_free calling_change_history_result
           dest!: arg_cong [where f = fst])
  qed
next
  case (Add_to_list param v)
  show ?thesis
  proof (cases "get_prop this param")
    case (Prim x)
    with assms Add_to_list have "this' = fst (UrlControl_change_history this w)"
      by (cases x) (auto simp: add_to_list_def calling_change_history_result split: if_splits bool.splits sum.splits)
    with assms(1) show ?thesis by (simp add: change_history_duplicate_free)
  next
    case (Arr xs)
    with assms(1) have "distinct xs" by (rule get_prop_no_duplicates)
    then have "v \<notin> set xs \<Longrightarrow> duplicate_free (set_prop param (Arr (xs @ [v])) this)"
      using assms(1) by (intro set_prop_duplicate_free) simp_all
    with assms Add_to_list Arr show ?thesis
      by (cases "v \<in> set xs")
        (auto simp: add_to_list_def change_history_duplicate_free calling_change_history_result
           dest!: arg_cong [where f = fst])
  qed
next
  case (Change_param param v flag)
  with assms have "this' = set_prop param v this
      \<or> this' = fst (UrlControl_change_history (set_prop param v this) w)"
    by (auto simp: change_param_def Let_def calling_change_history_result split: if_splits)
  moreover have "duplicate_free (set_prop param v this)"
    using assms Change_param by (intro set_prop_duplicate_free) simp_all
  ultimately show ?thesis
    by (auto simp: change_history_duplicate_free)
next
  case (Change_params params)
  with assms have t: "this' = fst (change_params params this w)"
    by (auto simp: calling_change_history_result)
  have "no_duplicates v" if "map_of params p = Some v" for p v
    using that assms(2) Change_params
    by (auto simp: list_all_iff dest!: map_of_SomeD)
  then show ?thesis
    using assms(1)
    by (auto simp: t duplicate_free_def change_params_props map_add_def split: option.splits)
next
  case (Elapse d)
  with assms show ?thesis by auto
qed

lemma run_duplicate_free:
  "duplicate_free this \<Longrightarrow> list_all hands_no_duplicates es \<Longrightarrow>
   run es (this, w) = Inr (this', w') \<Longrightarrow> duplicate_free this'"
proof (induction es arbitrary: this w)
  case Nil
  then show ?case by simp
next
  case (Cons e es)
  from Cons.prems(3) obtain this1 w1
    where s: "step e (this, w) = Inr (this1, w1)" and r: "run es (this1, w1) = Inr (this', w')"
    by (auto split: sum.splits)
  from Cons.prems(1,2) s have "duplicate_free this1"
    by (auto intro: step_duplicate_free)
  with Cons.prems(2) r show ?case
    by (auto intro: Cons.IH)
qed

lemma js_or_no_duplicates:
  "no_duplicates d \<Longrightarrow> no_duplicates (js_or (searchParams_get p ps) d)"
  by (simp add: js_or_def searchParams_get_def split: option.splits)

lemma constructor_duplicate_free:
  assumes "no_duplicates default_base_layer" "no_duplicates default_lat"
    "no_duplicates default_lon" "no_duplicates default_zoom"
  shows "duplicate_free (constructor default_base_layer w default_lat default_lon default_zoom)"
  using assms
  by (simp add: constructor_def Let_def set_prop_def duplicate_free_def js_or_no_duplicates)

text \<open>
  C7 (amended). \<open>add_to_list\<close> and \<open>remove_from_list\<close> keep a list without duplicates
  that way, and \<open>change_param\<close> and \<open>change_params\<close> store what they are given. So in
  every state reached from construction by calls of the four methods, no list field has
  a duplicate, provided that the lists handed to the controller (as a default, or as a
  value to \<open>change_param\<close> or \<open>change_params\<close>) have none.
\<close>

theorem lists_duplicate_free:
  assumes "no_duplicates default_base_layer" and "no_duplicates default_lat"
    and "no_duplicates default_lon" and "no_duplicates default_zoom"
    and "list_all well_named es" and "list_all hands_no_duplicates es"
    and "run es (constructor default_base_layer w default_lat default_lon default_zoom, w)
           = Inr (this', w')"
  shows "duplicate_free this'"
  using run_duplicate_free [OF constructor_duplicate_free [OF assms(1-4)] assms(6,7)] .

text \<open>A list is stored, a value that it has is added, a new one is added and one is
  removed: the list is \<open>["a", "c"]\<close>.\<close>

theorem lists_duplicate_free_example:
  "list_all well_named
     [Change_param ''layers'' (Arr [Str ''a'', Str ''b'']) (Prim (Bool False)),
      Add_to_list ''layers'' (Str ''a''), Add_to_list ''layers'' (Str ''c''),
      Remove_from_list ''layers'' (Str ''b''), Elapse 300]
   \<and> list_all hands_no_duplicates
     [Change_param ''layers'' (Arr [Str ''a'', Str ''b'']) (Prim (Bool False)),
      Add_to_list ''layers'' (Str ''a''), Add_to_list ''layers'' (Str ''c''),
      Remove_from_list ''layers'' (Str ''b''), Elapse 300]
   \<and> (case run
          [Change_param ''layers'' (Arr [Str ''a'', Str ''b'']) (Prim (Bool False)),
           Add_to_list ''layers'' (Str ''a''), Add_to_list ''layers'' (Str ''c''),
           Remove_from_list ''layers'' (Str ''b''), Elapse 300]
          (example_control, example_page) of
        Inl err \<Rightarrow> False
      | Inr (this', w') \<Rightarrow>
          duplicate_free this' \<and> get_prop this' ''layers'' = Arr [Str ''a'', Str ''c''])"
proof -
  let ?es = "[Change_param ''layers'' (Arr [Str ''a'', Str ''b'']) (Prim (Bool False)),
      Add_to_list ''layers'' (Str ''a''), Add_to_list ''layers'' (Str ''c''),
      Remove_from_list ''layers'' (Str ''b''), Elapse 300]"
  have names: "list_all well_named ?es" and clean: "list_all hands_no_duplicates ?es"
    by (simp_all add: field_name_def members_def)
  obtain this' w' where r: "run ?es (example_control, example_page) = Inr (this', w')"
    and l: "get_prop this' ''layers'' = Arr [Str ''a'', Str ''c'']"
    by (simp add: page_defs)
  have "duplicate_free this'"
    using lists_duplicate_free [of "Prim (Str ''osm'')" "Prim (Num ''0'')" "Prim (Num ''0'')"
        "Prim (Num ''1'')" ?es example_page this' w'] names clean r
    by (simp add: example_control_def)
  with names clean r l show ?thesis by simp
qed

text \<open>The claim as stated fails: \<open>change_param("layers", ["x", "x"])\<close> stores the list as
  it is.\<close>

theorem change_param_duplicates_counterexample:
  "\<not> duplicate_free
       (fst (change_param ''layers'' (Arr [Str ''x'', Str ''x'']) (Prim (Bool True))
               example_control example_page))"
proof
  assume "duplicate_free
       (fst (change_param ''layers'' (Arr [Str ''x'', Str ''x'']) (Prim (Bool True))
               example_control example_page))"
  moreover have "props (fst (change_param ''layers'' (Arr [Str ''x'', Str ''x'']) (Prim (Bool True))
               example_control example_page)) ''layers'' = Some (Arr [Str ''x'', Str ''x''])"
    by (simp add: change_param_def set_prop_def)
  ultimately have "no_duplicates (Arr [Str ''x'', Str ''x''])"
    unfolding duplicate_free_def by blast
  then show False by simp
qed

section \<open>Errors\<close>

text \<open>
  C8 (amended). The values are \<open>undefined\<close>, \<open>null\<close>, booleans, numbers, strings and lists
  of these. On a controller on which \<open>this._change_history\<close> is the method of the class,
  and for field names (names that are not the name of a member of the class):
  \<open>change_param\<close> and \<open>change_params\<close> do not raise, whatever the values. The list
  methods do not raise on a field that holds a list.
  On a field that was never set, or that holds a scalar other than a string, both list
  methods raise a \<open>TypeError\<close>; on a field that holds a string, \<open>add_to_list\<close> raises
  unless the value occurs in the string and \<open>remove_from_list\<close> raises if it does. The
  names are not validated and they matter: \<open>change_param\<close> on the name \<open>_change_history\<close>
  raises a \<open>TypeError\<close> whenever its third argument is missing, \<open>undefined\<close> or truthy,
  and \<open>change_params\<close> with that key always does.
\<close>

theorem error_conditions:
  assumes "field_name param" and "list_all (\<lambda>q. field_name (fst q)) params"
    and "finds_change_history this"
  shows "(\<forall>xs. props this param = Some (Arr xs) \<longrightarrow>
              (\<exists>c. step (Add_to_list param v) (this, w) = Inr c)
              \<and> (\<exists>c. step (Remove_from_list param v) (this, w) = Inr c))
       \<and> (props this param = None
            \<or> (\<exists>x. props this param = Some (Prim x) \<and> (\<forall>s. x \<noteq> Str s)) \<longrightarrow>
              step (Add_to_list param v) (this, w) = Inl TypeError
              \<and> step (Remove_from_list param v) (this, w) = Inl TypeError)
       \<and> (\<forall>s. props this param = Some (Prim (Str s)) \<longrightarrow>
              (step (Add_to_list param v) (this, w) = Inl TypeError
                 \<longleftrightarrow> \<not> string_includes s (prim_to_string v))
              \<and> (step (Remove_from_list param v) (this, w) = Inl TypeError
                 \<longleftrightarrow> string_includes s (prim_to_string v)))
       \<and> (\<exists>c. step (Change_param param x change_history) (this, w) = Inr c)
       \<and> (\<exists>c. step (Change_params params) (this, w) = Inr c)
       \<and> (change_history = Prim Undefined \<or> truthy change_history \<longrightarrow>
            step (Change_param ''_change_history'' x change_history) (this, w) = Inl TypeError)
       \<and> step (Change_params [(''_change_history'', x)]) (this, w) = Inl TypeError"
proof -
  have gp: "get_prop this param = (case props this param of None \<Rightarrow> Prim Undefined | Some u \<Rightarrow> u)"
    using field_name_not_timeout [OF assms(1)] by (simp add: get_prop_def)
  have same: "calling_change_history (UrlControl_change_history this u)
                = Inr (UrlControl_change_history this u)" for u
    using assms(3) by (simp add: calling_change_history_def finds_change_history_change_history)
  have stored: "calling_change_history (UrlControl_change_history (set_prop param u this) u')
                = Inr (UrlControl_change_history (set_prop param u this) u')" for u u'
    using assms(1,3)
    by (simp add: calling_change_history_def finds_change_history_change_history
          finds_change_history_set_prop)
  have lists: "(\<exists>c. step (Add_to_list param v) (this, w) = Inr c)
             \<and> (\<exists>c. step (Remove_from_list param v) (this, w) = Inr c)"
    if "props this param = Some (Arr xs)" for xs
    using that
    by (simp add: gp add_to_list_def remove_from_list_def same stored split: bool.splits)
  have scalars: "step (Add_to_list param v) (this, w) = Inl TypeError
             \<and> step (Remove_from_list param v) (this, w) = Inl TypeError"
    if "props this param = None \<or> (\<exists>x. props this param = Some (Prim x) \<and> (\<forall>s. x \<noteq> Str s))"
  proof -
    from that consider "get_prop this param = Prim Undefined"
      | x where "get_prop this param = Prim x" and "\<forall>s. x \<noteq> Str s"
      by (auto simp: gp)
    then show ?thesis
    proof cases
      case 1
      then show ?thesis by (simp add: add_to_list_def remove_from_list_def)
    next
      case 2
      then show ?thesis by (cases x) (simp_all add: add_to_list_def remove_from_list_def)
    qed
  qed
  have strings: "(step (Add_to_list param v) (this, w) = Inl TypeError
                 \<longleftrightarrow> \<not> string_includes s (prim_to_string v))
              \<and> (step (Remove_from_list param v) (this, w) = Inl TypeError
                 \<longleftrightarrow> string_includes s (prim_to_string v))"
    if "props this param = Some (Prim (Str s))" for s
    using that
    by (simp add: gp add_to_list_def remove_from_list_def same split: bool.splits)
  have single: "\<exists>c. step (Change_param param x change_history) (this, w) = Inr c"
    by (simp add: change_param_def Let_def stored)
  have "finds_change_history (fst (change_params params this w))"
  proof -
    have "map_of params ''_change_history'' = None" and "map_of params ''__proto__'' = None"
      using assms(2) by (auto intro!: field_names_map_of simp: field_name_def members_def)
    then have "finds_change_history (fst (change_params params this w))
                 = finds_change_history this"
      by (intro finds_change_history_cong) (simp_all add: change_params_props map_add_def)
    with assms(3) show ?thesis by simp
  qed
  then have several: "\<exists>c. step (Change_params params) (this, w) = Inr c"
    by (simp add: calling_change_history_def)
  have "\<not> finds_change_history (fst (UrlControl_change_history
            (set_prop ''_change_history'' x this) w))"
    by (simp add: finds_change_history_change_history)
      (simp add: finds_change_history_def set_prop_def)
  then have shadowed: "step (Change_param ''_change_history'' x change_history) (this, w)
                         = Inl TypeError"
    if "change_history = Prim Undefined \<or> truthy change_history"
    using that by (auto simp: change_param_def Let_def calling_change_history_def)
  have "\<not> finds_change_history (fst (change_params [(''_change_history'', x)] this w))"
    by (simp add: finds_change_history_def change_params_props)
  then have shadowed_key: "step (Change_params [(''_change_history'', x)]) (this, w) = Inl TypeError"
    by (simp add: calling_change_history_def)
  from lists scalars strings single several shadowed shadowed_key show ?thesis
    by blast
qed

text \<open>On the controller as constructed, \<open>layers\<close> was never set and both list methods
  raise; \<open>lat\<close> holds the string \<open>5\<close>, so that \<open>add_to_list\<close> raises for \<open>x\<close> and not for \<open>5\<close>;
  assigning a list to \<open>layers\<close> raises nothing, and storing a value under the name
  \<open>_change_history\<close> does.\<close>

theorem error_conditions_example:
  "field_name ''layers'' \<and> field_name ''lat''
   \<and> list_all (\<lambda>q. field_name (fst q)) [(''layers'', Arr [Str ''x''])]
   \<and> finds_change_history example_control
   \<and> props example_control ''layers'' = None
   \<and> step (Add_to_list ''layers'' (Str ''x'')) (example_control, example_page) = Inl TypeError
   \<and> step (Remove_from_list ''layers'' (Str ''x'')) (example_control, example_page) = Inl TypeError
   \<and> props example_control ''lat'' = Some (Prim (Str ''5''))
   \<and> step (Add_to_list ''lat'' (Str ''x'')) (example_control, example_page) = Inl TypeError
   \<and> step (Add_to_list ''lat'' (Str ''5'')) (example_control, example_page) \<noteq> Inl TypeError
   \<and> (case step (Change_params [(''layers'', Arr [Str ''x''])]) (example_control, example_page) of
        Inl err \<Rightarrow> False
      | Inr (this', w') \<Rightarrow> get_prop this' ''layers'' = Arr [Str ''x''])
   \<and> step (Change_params [(''_change_history'', Prim (Num ''5''))]) (example_control, example_page)
        = Inl TypeError"
  using error_conditions [where param = "''layers''" and this = example_control
      and params = "[(''layers'', Arr [Str ''x''])]" and v = "Str ''x''" and w = example_page
      and x = "Prim (Num ''5'')"]
    error_conditions [where param = "''lat''" and this = example_control
      and params = "[(''layers'', Arr [Str ''x''])]" and v = "Str ''x''" and w = example_page]
  by (simp add: page_defs)

text \<open>The claim as stated fails: \<open>remove_from_list\<close> on a field that was never set raises
  a \<open>TypeError\<close>.\<close>

theorem remove_from_list_missing_field_counterexample:
  "get_prop example_control ''layers'' = Prim Undefined
   \<and> remove_from_list ''layers'' (Str ''x'') example_control example_page = Inl TypeError"
  by (simp add: page_defs)

section \<open>The index of the colour\<close>

lemma bit_length_less: "n < 2 ^ bit_length n"
proof (induction n rule: bit_length.induct)
  case (1 n)
  show ?case
  proof (cases "n = 0")
    case True
    then show ?thesis by (simp add: bit_length.simps)
  next
    case False
    with 1 have "n div 2 < 2 ^ bit_length (n div 2)" by simp
    then have "n < 2 * 2 ^ bit_length (n div 2)" by linarith
    with False show ?thesis by (subst bit_length.simps) simp
  qed
qed

lemma bit_length_le: "n < 2 ^ k \<Longrightarrow> bit_length n \<le> k"
proof (induction n arbitrary: k rule: bit_length.induct)
  case (1 n)
  show ?case
  proof (cases "n = 0")
    case True
    then show ?thesis by (simp add: bit_length.simps)
  next
    case False
    with 1(2) obtain j where k: "k = Suc j" by (cases k) auto
    with 1(2) have "n div 2 < 2 ^ j" by auto
    with 1(1) False have "bit_length (n div 2) \<le> j" by simp
    with False k show ?thesis by (subst bit_length.simps) simp
  qed
qed

lemma bit_length_eq: "2 ^ j \<le> n \<Longrightarrow> n < 2 ^ Suc j \<Longrightarrow> bit_length n = Suc j"
proof -
  assume lo: "2 ^ j \<le> n" and hi: "n < 2 ^ Suc j"
  from hi have "bit_length n \<le> Suc j" by (rule bit_length_le)
  moreover have "j < bit_length n"
  proof (rule ccontr)
    assume "\<not> j < bit_length n"
    then have "bit_length n \<le> j" by simp
    then have "(2::nat) ^ bit_length n \<le> 2 ^ j"
      by (intro power_increasing) simp_all
    with bit_length_less [of n] lo show False by linarith
  qed
  ultimately show ?thesis by simp
qed

lemma round_le:
  fixes M s :: nat
  assumes "0 < s"
  shows "(if 2 ^ (s - 1) < M mod 2 ^ s \<or> (M mod 2 ^ s = 2 ^ (s - 1) \<and> odd (M div 2 ^ s))
          then M div 2 ^ s + 1 else M div 2 ^ s)
         \<le> (M + 2 ^ (s - 1)) div 2 ^ s"
proof -
  define h :: nat where "h = 2 ^ (s - 1)"
  define p :: nat where "p = 2 ^ s"
  have p: "p = h + h" "0 < p"
    using assms by (cases s; simp add: h_def p_def)+
  have mono: "M div p \<le> (M + h) div p"
    by (rule div_le_mono) simp
  have up: "M div p + 1 \<le> (M + h) div p" if "h \<le> M mod p"
  proof -
    have "M div p * p + M mod p = M"
      by (rule div_mult_mod_eq)
    moreover have "(M div p + 1) * p = M div p * p + h + h"
      by (simp add: p(1) algebra_simps)
    ultimately have "(M div p + 1) * p \<le> M + h"
      using that by linarith
    then show ?thesis
      using p(2) by (simp add: less_eq_div_iff_mult_less_eq)
  qed
  show ?thesis
    using mono up unfolding h_def [symmetric] p_def [symmetric] by auto
qed

lemma floor_small:
  fixes q j :: nat
  assumes "q < 7 * 2 ^ j"
  shows "q div 2 ^ j \<le> 6"
proof -
  have "q div 2 ^ j < 7"
    using assms by (simp add: div_less_iff_less_mult mult.commute)
  then show ?thesis by simp
qed

lemma times_7_floor:
  assumes "random_result r"
  shows "Math_floor (times_length 7 r) \<le> 6"
proof -
  define m where "m = significand r"
  define e where "e = exponent r"
  define k where "k = nat (- e)"
  from assms have m53: "m < 2 ^ 53"
    and one: "m = 0 \<or> (e < 0 \<and> m < 2 ^ k)"
    by (simp_all add: random_result_def is_float64_def less_than_one_def m_def e_def k_def)
  show ?thesis
  proof (cases "m = 0")
    case True
    then show ?thesis
      by (simp add: times_length_def Math_floor_def m_def [symmetric])
  next
    case False
    with one have e: "e < 0" and mk: "m < 2 ^ k" by simp_all
    then have mk': "7 * m + 7 \<le> 7 * 2 ^ k" by simp
    show ?thesis
    proof (cases "7 * m < 2 ^ 53")
      case True
      have "7 * m < 7 * 2 ^ k" using mk by simp
      then have "(7 * m) div 2 ^ k \<le> 6" by (rule floor_small)
      with True e show ?thesis
        by (simp add: times_length_def Math_floor_def m_def [symmetric] e_def [symmetric]
              k_def [symmetric])
    next
      case False
      define M where "M = 7 * m"
      define s where "s = bit_length M - 53"
      have "M < 2 ^ 56" using m53 by (simp add: M_def)
      then have "bit_length M \<le> 56" by (rule bit_length_le)
      moreover have "53 < bit_length M"
      proof (rule ccontr)
        assume "\<not> 53 < bit_length M"
        then have "bit_length M \<le> 53" by simp
        then have "(2::nat) ^ bit_length M \<le> 2 ^ 53"
          by (intro power_increasing) simp_all
        with bit_length_less [of M] have "M < 2 ^ 53" by linarith
        with False show False by (simp add: M_def)
      qed
      ultimately have s: "s = 1 \<or> s = 2 \<or> s = 3"
        by (auto simp: s_def)
      then have s0: "0 < s" and half: "(2::nat) ^ (s - 1) \<le> 4" by auto
      have "(2::nat) ^ 50 \<le> m" using False by simp
      with mk have "(2::nat) ^ 50 < 2 ^ k" by linarith
      have k50: "50 < k"
      proof (rule ccontr)
        assume "\<not> 50 < k"
        then have "k \<le> 50" by simp
        then have "(2::nat) ^ k \<le> 2 ^ 50"
          by (intro power_increasing) simp_all
        with \<open>(2::nat) ^ 50 < 2 ^ k\<close> show False by linarith
      qed
      with s have ks: "s \<le> k" by auto
      define q where "q = (if 2 ^ (s - 1) < M mod 2 ^ s \<or> (M mod 2 ^ s = 2 ^ (s - 1) \<and> odd (M div 2 ^ s))
          then M div 2 ^ s + 1 else M div 2 ^ s)"
      have "q \<le> (M + 2 ^ (s - 1)) div 2 ^ s"
        unfolding q_def using s0 by (rule round_le)
      moreover have "(M + 2 ^ (s - 1)) div 2 ^ s < 7 * 2 ^ (k - s)"
      proof -
        have "(2::nat) ^ k = 2 ^ (k - s) * 2 ^ s"
          using ks by (simp flip: power_add)
        then have "M + 2 ^ (s - 1) < 7 * 2 ^ (k - s) * 2 ^ s"
          using mk' half by (simp add: M_def)
        then show ?thesis
          by (simp add: div_less_iff_less_mult)
      qed
      ultimately have "q < 7 * 2 ^ (k - s)" by linarith
      then have fl: "q div 2 ^ (k - s) \<le> 6" by (rule floor_small)
      have neg: "e + int s < 0" and nat: "nat (- (e + int s)) = k - s"
        using k50 s by (auto simp: k_def)
      have "times_length 7 r = \<lparr>significand = q, exponent = e + int s\<rparr>"
        using False
        by (simp add: times_length_def Let_def m_def [symmetric] e_def [symmetric]
              M_def [symmetric] s_def [symmetric] q_def)
      with fl neg nat show ?thesis
        by (simp add: Math_floor_def)
    qed
  qed
qed

lemma palette_reached:
  "k \<in> {0, 2, 3, 4, 5, 6, 7} \<Longrightarrow>
   random_result \<lparr>significand = k, exponent = - 3\<rparr>
   \<and> randomClusterColor \<lparr>significand = k, exponent = - 3\<rparr>
       = map_detections_clusters_colors ! ((7 * k) div 8)"
  by (auto simp: random_result_def is_float64_def less_than_one_def randomClusterColor_def
        randomChoice_def times_length_def Math_floor_def element_at_def
        map_detections_clusters_colors_def)

text \<open>
  C9. For every draw \<open>r\<close> that \<open>Math.random()\<close> can return, the index
  \<open>Math.floor(7 * r)\<close> that \<open>randomClusterColor\<close> computes is one of 0, ..., 6, and the
  colour returned is the element of the palette at that index, so a member of the
  palette; the palette has seven elements, and each of them is returned for some draw.
  The product \<open>7 * r\<close> is the binary64 product, rounded as the machine rounds it.
\<close>

theorem randomClusterColor_palette:
  "(random_result r \<longrightarrow>
      (let i = Math_floor (times_length 7 r) in
       i \<le> 6
       \<and> randomClusterColor r = map_detections_clusters_colors ! i
       \<and> randomClusterColor r \<in> set map_detections_clusters_colors))
   \<and> length map_detections_clusters_colors = 7
   \<and> (\<forall>c \<in> set map_detections_clusters_colors. \<exists>r. random_result r \<and> randomClusterColor r = c)"
proof (intro conjI impI ballI)
  assume r: "random_result r"
  have len: "length map_detections_clusters_colors = 7"
    by (simp add: map_detections_clusters_colors_def)
  from r have i: "Math_floor (times_length 7 r) \<le> 6" by (rule times_7_floor)
  then have at: "randomClusterColor r
      = map_detections_clusters_colors ! Math_floor (times_length 7 r)"
    by (simp add: randomClusterColor_def randomChoice_def element_at_def len)
  moreover have "map_detections_clusters_colors ! Math_floor (times_length 7 r)
      \<in> set map_detections_clusters_colors"
    using i by (intro nth_mem) (simp add: len)
  ultimately show "let i = Math_floor (times_length 7 r) in
       i \<le> 6
       \<and> randomClusterColor r = map_detections_clusters_colors ! i
       \<and> randomClusterColor r \<in> set map_detections_clusters_colors"
    using i by (simp add: Let_def)
next
  show "length map_detections_clusters_colors = 7"
    by (simp add: map_detections_clusters_colors_def)
next
  fix c
  assume "c \<in> set map_detections_clusters_colors"
  then obtain i where "i < length map_detections_clusters_colors"
    and c: "c = map_detections_clusters_colors ! i"
    unfolding in_set_conv_nth by blast
  then have i: "i < 7"
    by (simp add: map_detections_clusters_colors_def)
  from i consider "i = 0" | "i = 1" | "i = 2" | "i = 3" | "i = 4" | "i = 5" | "i = 6"
    by linarith
  then obtain k :: nat where "k \<in> {0, 2, 3, 4, 5, 6, 7}" and "(7 * k) div 8 = i"
  proof cases
    case 1
    show ?thesis by (rule that [of 0]) (simp_all add: 1)
  next
    case 2
    show ?thesis by (rule that [of 2]) (simp_all add: 2)
  next
    case 3
    show ?thesis by (rule that [of 3]) (simp_all add: 3)
  next
    case 4
    show ?thesis by (rule that [of 4]) (simp_all add: 4)
  next
    case 5
    show ?thesis by (rule that [of 5]) (simp_all add: 5)
  next
    case 6
    show ?thesis by (rule that [of 6]) (simp_all add: 6)
  next
    case 7
    show ?thesis by (rule that [of 7]) (simp_all add: 7)
  qed
  with palette_reached [of k] c show "\<exists>r. random_result r \<and> randomClusterColor r = c"
    by blast
qed

text \<open>The draw nearest to 4/7: the product rounds to 4, the index is 4 and the colour is
  the fifth of the palette.\<close>

theorem randomClusterColor_example:
  "random_result \<lparr>significand = 5146971002709138, exponent = - 53\<rparr>
   \<and> times_length 7 \<lparr>significand = 5146971002709138, exponent = - 53\<rparr>
       = \<lparr>significand = 2 ^ 53, exponent = - 51\<rparr>
   \<and> Math_floor (times_length 7 \<lparr>significand = 5146971002709138, exponent = - 53\<rparr>) = 4
   \<and> randomClusterColor \<lparr>significand = 5146971002709138, exponent = - 53\<rparr> = Str ''#ff0000''"
proof -
  let ?r = "\<lparr>significand = 5146971002709138, exponent = - 53\<rparr>"
  have r: "random_result ?r"
    by (simp add: random_result_def is_float64_def less_than_one_def)
  have b: "bit_length 36028797018963966 = 55"
    using bit_length_eq [of 54 36028797018963966] by simp
  have t: "times_length 7 ?r = \<lparr>significand = 2 ^ 53, exponent = - 51\<rparr>"
    by (simp add: times_length_def b Let_def)
  have f: "Math_floor (times_length 7 ?r) = 4"
    by (simp add: t Math_floor_def)
  from randomClusterColor_palette [of ?r] r
  have "randomClusterColor ?r = map_detections_clusters_colors ! Math_floor (times_length 7 ?r)"
    by (simp add: Let_def)
  then have "randomClusterColor ?r = Str ''#ff0000''"
    by (simp add: f map_detections_clusters_colors_def)
  with r t f show ?thesis by simp
qed

end
